theory Spec2Isabelle
  imports Complex_Main "HOL-Library.Word" "HOL-Library.Log_Nat"
begin

unbundle bit_operations_syntax

section \<open>The C++ \<open>double\<close> values used by the stage\<close>

text \<open>
  \<open>SingleAxisStage.cpp\<close> computes step targets in \<open>double\<close>. A \<open>double\<close> is a finite
  real, an infinity or a NaN. Finite results of an operation are rounded to binary64
  (53 significant bits, round to nearest, ties to even, gradual underflow, overflow to an
  infinity). The two zeros are not told apart: no operation modelled here depends on the
  sign of a zero except a division by zero, which takes the zero as positive.
\<close>

datatype double = DVal real | DPosInf | DNegInf | DNaN

definition ulp_exp :: "real \<Rightarrow> int" where
  "ulp_exp x = max (- 1074)
     ((if 1 \<le> \<bar>x\<bar> then bitlen \<lfloor>\<bar>x\<bar>\<rfloor> - 1 else - bitlen (\<lceil>1 / \<bar>x\<bar>\<rceil> - 1)) - 52)"

definition rne :: "real \<Rightarrow> int" where
  "rne x = (let f = \<lfloor>x\<rfloor>; r = x - of_int f
            in if r < 1 / 2 then f else if 1 / 2 < r then f + 1
               else if even f then f else f + 1)"

definition fl :: "real \<Rightarrow> real" where
  "fl x = (if x = 0 then 0 else of_int (rne (x / 2 powi ulp_exp x)) * 2 powi ulp_exp x)"

definition DBL_MAX :: real where
  "DBL_MAX = (2 ^ 53 - 1) * 2 ^ 971"

definition to_double :: "real \<Rightarrow> double" where
  "to_double x = (let y = fl x
                  in if DBL_MAX < y then DPosInf else if y < - DBL_MAX then DNegInf else DVal y)"

fun dmul :: "double \<Rightarrow> double \<Rightarrow> double" where
  "dmul DNaN _ = DNaN"
| "dmul _ DNaN = DNaN"
| "dmul (DVal a) (DVal b) = to_double (a * b)"
| "dmul (DVal a) DPosInf = (if a = 0 then DNaN else if 0 < a then DPosInf else DNegInf)"
| "dmul (DVal a) DNegInf = (if a = 0 then DNaN else if 0 < a then DNegInf else DPosInf)"
| "dmul DPosInf (DVal b) = (if b = 0 then DNaN else if 0 < b then DPosInf else DNegInf)"
| "dmul DNegInf (DVal b) = (if b = 0 then DNaN else if 0 < b then DNegInf else DPosInf)"
| "dmul DPosInf DPosInf = DPosInf"
| "dmul DPosInf DNegInf = DNegInf"
| "dmul DNegInf DPosInf = DNegInf"
| "dmul DNegInf DNegInf = DPosInf"

fun ddiv :: "double \<Rightarrow> double \<Rightarrow> double" where
  "ddiv DNaN _ = DNaN"
| "ddiv _ DNaN = DNaN"
| "ddiv (DVal a) (DVal b) =
     (if b = 0 then (if a = 0 then DNaN else if 0 < a then DPosInf else DNegInf)
      else to_double (a / b))"
| "ddiv (DVal a) _ = DVal 0"
| "ddiv DPosInf (DVal b) = (if 0 \<le> b then DPosInf else DNegInf)"
| "ddiv DNegInf (DVal b) = (if 0 \<le> b then DNegInf else DPosInf)"
| "ddiv _ _ = DNaN"

text \<open>\<open>operator<\<close> on doubles: every comparison with a NaN is false.\<close>

fun dless :: "double \<Rightarrow> double \<Rightarrow> bool" where
  "dless DNaN _ = False"
| "dless _ DNaN = False"
| "dless (DVal a) (DVal b) = (a < b)"
| "dless _ DNegInf = False"
| "dless DNegInf _ = True"
| "dless DPosInf _ = False"
| "dless _ DPosInf = True"

text \<open>\<open>std::round\<close>: to the nearest integer, halfway cases away from zero.\<close>

definition c_round :: "real \<Rightarrow> int" where
  "c_round x = (if 0 \<le> x then \<lfloor>x + 1 / 2\<rfloor> else - \<lfloor>- x + 1 / 2\<rfloor>)"

fun dround :: "double \<Rightarrow> double" where
  "dround (DVal x) = DVal (of_int (c_round x))"
| "dround d = d"

definition INT_MIN :: int where
  "INT_MIN = - 2147483648"

definition INT_MAX :: int where
  "INT_MAX = 2147483647"

text \<open>
  \<open>static_cast<int>\<close> of a \<open>double\<close> truncates toward zero; it is undefined when the
  truncated value is not an \<open>int\<close>, and for an infinity or a NaN (\<open>None\<close>).
\<close>

fun cast_int :: "double \<Rightarrow> int option" where
  "cast_int (DVal x) =
     (let t = (if 0 \<le> x then \<lfloor>x\<rfloor> else - \<lfloor>- x\<rfloor>)
      in if INT_MIN \<le> t \<and> t \<le> INT_MAX then Some t else None)"
| "cast_int _ = None"

section \<open>\<open>clamp\<close> and \<open>clamp_int\<close>\<close>

text \<open>
  \<open>std::min(a, b)\<close> is \<open>(b < a) ? b : a\<close> and \<open>std::max(a, b)\<close> is \<open>(a < b) ? b : a\<close>;
  the templates are instantiated at \<open>double\<close> and at \<open>long\<close>, so the order is a parameter.
\<close>

definition std_min :: "('a \<Rightarrow> 'a \<Rightarrow> bool) \<Rightarrow> 'a \<Rightarrow> 'a \<Rightarrow> 'a" where
  "std_min lt a b = (if lt b a then b else a)"

definition std_max :: "('a \<Rightarrow> 'a \<Rightarrow> bool) \<Rightarrow> 'a \<Rightarrow> 'a \<Rightarrow> 'a" where
  "std_max lt a b = (if lt a b then b else a)"

definition clamp :: "('a \<Rightarrow> 'a \<Rightarrow> bool) \<Rightarrow> 'a \<Rightarrow> 'a \<Rightarrow> 'a \<Rightarrow> 'a" where
  "clamp lt value lower upper = std_max lt lower (std_min lt upper value)"

definition clamp_int :: "double \<Rightarrow> int option" where
  "clamp_int value =
     (let lower = DVal (of_int INT_MIN);
          upper = DVal (of_int INT_MAX);
          ret = clamp dless value lower upper
      in cast_int ret)"

text \<open>
  \<open>clamp_int\<close> at \<open>long\<close>, as \<open>SetPositionSteps\<close> uses it. Where \<open>long\<close> is no wider than
  \<open>int\<close> the source casts instead, which is the same function on every \<open>long\<close> of such
  a platform.
\<close>

definition clamp_int_long :: "int \<Rightarrow> int" where
  "clamp_int_long value = clamp (<) value INT_MIN INT_MAX"

section \<open>The stage and its collaborators\<close>

text \<open>
  A \<open>MotorDrive\<close> handle, as far as this file looks into it: the state of its
  connection (\<open>GetConnection()->IsValid()\<close>, \<open>GetConnection()->ConnectionError()\<close>).
\<close>

record motor_drive =
  connIsValid :: bool
  connError :: int

text \<open>
  What the stage asks of the handle and of the host, in the order it asks. The list is
  kept in the state so that theorems can say which commands an operation issued.
\<close>

datatype call =
    CConnect
  | CRequestPosition
  | CRequestStatusBits
  | CStartPolling int
  | CSleepMs int
  | CIsChannelEnabled
  | CSetChannelEnabled bool
  | CCreateFloatProperty
  | CStopPolling
  | CMoveToPosition int
  | CCanHome
  | CHome

text \<open>
  The answers of the hardware and of the host during one call of an operation:
  \<open>short\<close> codes are 16-bit words read signed, the status bits are a \<open>DWORD\<close>.
\<close>

record kinesis =
  Connect_ret :: "motor_drive option"
  RequestPosition_ret :: "16 word"
  RequestStatusBits_ret :: "16 word"
  StartPolling_ret :: bool
  IsChannelEnabled_ret :: bool
  SetChannelEnabled_ret :: "16 word"
  CreateFloatProperty_ret :: int
  GetStatusBits_ret :: "32 word"
  MoveToPosition_ret :: "16 word"
  CanHome_ret :: bool
  Home_ret :: "16 word"

text \<open>
  Constants of headers that are not among the sources: \<open>ERR_OFFSET\<close> of \<open>Errors.h\<close> and
  the status bit masks of \<open>MotorDrive.h\<close>. They are parameters of every operation that
  uses them.
\<close>

record adapter_consts =
  ERR_OFFSET :: int
  StatusBitsMovingCW :: "32 word"
  StatusBitsMovingCCW :: "32 word"
  StatusBitsJoggingCW :: "32 word"
  StatusBitsJoggingCCW :: "32 word"
  StatusBitsHoming :: "32 word"

text \<open>The host framework's return codes (\<open>MMDeviceConstants.h\<close>).\<close>

definition DEVICE_OK :: int where
  "DEVICE_OK = 0"

definition DEVICE_ERR :: int where
  "DEVICE_ERR = 1"

definition DEVICE_UNSUPPORTED_COMMAND :: int where
  "DEVICE_UNSUPPORTED_COMMAND = 11"

text \<open>
  The members of \<open>SingleAxisStage\<close> that the operations read or write, the three
  pre-initialisation properties, and the list of calls issued so far. A timestamp
  (\<open>MM::MMTime\<close>, a host type) is its value in milliseconds.
\<close>

record stage =
  homed :: bool
  initialized :: bool
  motorDrive :: "motor_drive option"
  isRotational :: bool
  deviceUnitsPerUm :: double
  didEnable :: bool
  lastMovementStart :: real
  pollingIntervalMs :: int
  propStageType :: string
  propDeviceUnitsPerMillimeter :: double
  propDeviceUnitsPerRevolution :: double
  issued :: "call list"

definition issue :: "call \<Rightarrow> stage \<Rightarrow> stage" where
  "issue c s = s\<lparr>issued := issued s @ [c]\<rparr>"

text \<open>
  An operation either returns, or it dereferences the empty \<open>motorDrive_\<close>, or it casts
  a \<open>double\<close> that is no \<open>int\<close>.
\<close>

datatype fault = NullDeref | UndefinedCast

definition PROPVAL_StageTypeLinear :: string where
  "PROPVAL_StageTypeLinear = ''Linear''"

definition PROPVAL_StageTypeRotational :: string where
  "PROPVAL_StageTypeRotational = ''Rotational''"

subsection \<open>Construction\<close>

text \<open>The device kinds that the constructor tells apart (\<open>TypeIDOfSerialNo\<close>).\<close>

datatype type_id =
    TypeIDCageRotator
  | TypeIDLabJack050
  | TypeIDLabJack490
  | TypeIDLongTravelStage
  | TypeIDVerticalStage
  | TypeIDOther

text \<open>
  Modelled from the spec: the member declarations of \<open>SingleAxisStage.h\<close>, which is not
  among the sources, give the members that the constructor does not mention their first
  values. The spec has \<open>didEnable_\<close> recorded at Initialize (so false before) and the
  handle created at Initialize (so absent before); \<open>isRotational_\<close> starts false. The
  polling interval, the first scale factor and the first timestamp are parameters.
\<close>

definition SingleAxisStage :: "type_id \<Rightarrow> int \<Rightarrow> double \<Rightarrow> real \<Rightarrow> stage" where
  "SingleAxisStage tid pollMs units0 t0 =
     (let rot = (case tid of TypeIDCageRotator \<Rightarrow> True | _ \<Rightarrow> False);
          defaultDeviceUnitsPerMm =
            (case tid of
               TypeIDLabJack050 \<Rightarrow> 1228800
             | TypeIDLabJack490 \<Rightarrow> 134737
             | TypeIDLongTravelStage \<Rightarrow> 409600
             | TypeIDVerticalStage \<Rightarrow> 25050
             | _ \<Rightarrow> 1000);
          defaultDeviceUnitsPerRevolution =
            (case tid of TypeIDCageRotator \<Rightarrow> 49152000 | _ \<Rightarrow> 360)
      in \<lparr> homed = False,
           initialized = False,
           motorDrive = None,
           isRotational = rot,
           deviceUnitsPerUm = units0,
           didEnable = False,
           lastMovementStart = t0,
           pollingIntervalMs = pollMs,
           propStageType =
             (if rot then PROPVAL_StageTypeRotational else PROPVAL_StageTypeLinear),
           propDeviceUnitsPerMillimeter = DVal defaultDeviceUnitsPerMm,
           propDeviceUnitsPerRevolution = DVal defaultDeviceUnitsPerRevolution,
           issued = [] \<rparr>)"

subsection \<open>Initialize\<close>

text \<open>
  The last step of \<open>Initialize\<close>, after the channel has been dealt with: the position
  property is created and the stage marked initialised.
\<close>

definition Initialize_property :: "kinesis \<Rightarrow> stage \<Rightarrow> fault + (int \<times> stage)" where
  "Initialize_property H s =
     (let s = issue CCreateFloatProperty s;
          ret = CreateFloatProperty_ret H
      in if ret \<noteq> DEVICE_OK then Inr (ret, s)
         else Inr (DEVICE_OK, s\<lparr>initialized := True\<rparr>))"

text \<open>
  \<open>Initialize\<close>. A failure of \<open>StartPolling\<close> is only written to the host's log, so
  its answer is not read here.
\<close>

definition Initialize :: "adapter_consts \<Rightarrow> kinesis \<Rightarrow> stage \<Rightarrow> fault + (int \<times> stage)" where
  "Initialize K H s =
     (if initialized s then Inr (DEVICE_OK, s)
      else
        let s = issue CConnect s in
        case Connect_ret H of
          None \<Rightarrow> Inr (DEVICE_ERR, s)
        | Some md \<Rightarrow>
            if \<not> connIsValid md then Inr (ERR_OFFSET K + connError md, s)
            else
              let s = s\<lparr>motorDrive := Some md\<rparr>;
                  s = s\<lparr>isRotational := (propStageType s \<noteq> PROPVAL_StageTypeLinear)\<rparr>;
                  s = (if isRotational s
                       then s\<lparr>deviceUnitsPerUm :=
                                ddiv (propDeviceUnitsPerRevolution s) (DVal 360)\<rparr>
                       else s\<lparr>deviceUnitsPerUm :=
                                ddiv (propDeviceUnitsPerMillimeter s) (DVal 1000)\<rparr>);
                  s = issue CRequestPosition s
              in if RequestPosition_ret H \<noteq> 0
                 then Inr (ERR_OFFSET K + sint (RequestPosition_ret H), s)
                 else
                   let s = issue CRequestStatusBits s
                   in if RequestStatusBits_ret H \<noteq> 0
                      then Inr (ERR_OFFSET K + sint (RequestStatusBits_ret H), s)
                      else
                        let s = issue (CStartPolling (pollingIntervalMs s)) s;
                            s = issue (CSleepMs 100) s;
                            s = issue CIsChannelEnabled s
                        in if \<not> IsChannelEnabled_ret H
                           then
                             let s = issue (CSetChannelEnabled True) s
                             in if SetChannelEnabled_ret H \<noteq> 0
                                then Inr (ERR_OFFSET K + sint (SetChannelEnabled_ret H), s)
                                else Initialize_property H (s\<lparr>didEnable := True\<rparr>)
                           else Initialize_property H s)"

subsection \<open>Shutdown\<close>

definition Shutdown :: "stage \<Rightarrow> fault + (int \<times> stage)" where
  "Shutdown s =
     (case (if didEnable s
            then (case motorDrive s of
                    None \<Rightarrow> Inl NullDeref
                  | Some md \<Rightarrow> Inr (issue (CSetChannelEnabled False) s))
            else Inr s) of
        Inl f \<Rightarrow> Inl f
      | Inr s \<Rightarrow>
          let s = (if motorDrive s \<noteq> None then issue CStopPolling s else s);
              s = s\<lparr>motorDrive := None\<rparr>
          in Inr (DEVICE_OK, s))"

subsection \<open>Busy\<close>

definition moving_mask :: "adapter_consts \<Rightarrow> 32 word" where
  "moving_mask K =
     StatusBitsMovingCW K OR StatusBitsMovingCCW K OR StatusBitsJoggingCW K
       OR StatusBitsJoggingCCW K OR StatusBitsHoming K"

definition Busy :: "adapter_consts \<Rightarrow> kinesis \<Rightarrow> real \<Rightarrow> stage \<Rightarrow> fault + bool" where
  "Busy K H now s =
     (let msSinceMovementStart = now - lastMovementStart s
      in if msSinceMovementStart \<le> of_int (pollingIntervalMs s) + 10 then Inr True
         else case motorDrive s of
                None \<Rightarrow> Inl NullDeref
              | Some md \<Rightarrow> Inr (GetStatusBits_ret H AND moving_mask K \<noteq> 0))"

subsection \<open>Moving\<close>

definition SetPositionSteps ::
    "adapter_consts \<Rightarrow> kinesis \<Rightarrow> real \<Rightarrow> int \<Rightarrow> stage \<Rightarrow> fault + (int \<times> stage)" where
  "SetPositionSteps K H now steps s =
     (let iSteps = clamp_int_long steps
      in case motorDrive s of
           None \<Rightarrow> Inl NullDeref
         | Some md \<Rightarrow>
             let s = issue (CMoveToPosition iSteps) s;
                 err = MoveToPosition_ret H
             in if err \<noteq> 0 then Inr (ERR_OFFSET K + sint err, s)
                else Inr (DEVICE_OK, s\<lparr>lastMovementStart := now\<rparr>))"

definition SetPositionUm ::
    "adapter_consts \<Rightarrow> kinesis \<Rightarrow> real \<Rightarrow> double \<Rightarrow> stage \<Rightarrow> fault + (int \<times> stage)" where
  "SetPositionUm K H now pos s =
     (let dSteps = dround (dmul pos (deviceUnitsPerUm s))
      in case clamp_int dSteps of
           None \<Rightarrow> Inl UndefinedCast
         | Some steps \<Rightarrow> SetPositionSteps K H now steps s)"

subsection \<open>Homing\<close>

definition Home :: "adapter_consts \<Rightarrow> kinesis \<Rightarrow> real \<Rightarrow> stage \<Rightarrow> fault + (int \<times> stage)" where
  "Home K H now s =
     (case motorDrive s of
        None \<Rightarrow> Inl NullDeref
      | Some md \<Rightarrow>
          let s = issue CCanHome s
          in if \<not> CanHome_ret H then Inr (DEVICE_UNSUPPORTED_COMMAND, s)
             else if homed s then Inr (DEVICE_OK, s)
             else
               let s = issue CHome s;
                   err = Home_ret H
               in if err \<noteq> 0 then Inr (ERR_OFFSET K + sint err, s)
                  else Inr (DEVICE_OK, s\<lparr>homed := True, lastMovementStart := now\<rparr>))"

section \<open>A concrete device\<close>

text \<open>
  Values for the missing constants (\<open>ERR_OFFSET\<close> and the vendor's status bits), a valid
  handle, and a controller that accepts every request. Runs on these are used to show that
  the hypotheses of the theorems below can be met, and to exhibit runs of the code.
\<close>

definition K_ex :: adapter_consts where
  "K_ex = \<lparr> ERR_OFFSET = 20000,
            StatusBitsMovingCW = 0x10,
            StatusBitsMovingCCW = 0x20,
            StatusBitsJoggingCW = 0x40,
            StatusBitsJoggingCCW = 0x80,
            StatusBitsHoming = 0x200 \<rparr>"

definition md_ok :: motor_drive where
  "md_ok = \<lparr> connIsValid = True, connError = 0 \<rparr>"

definition hw_ok :: kinesis where
  "hw_ok = \<lparr> Connect_ret = Some md_ok,
             RequestPosition_ret = 0,
             RequestStatusBits_ret = 0,
             StartPolling_ret = True,
             IsChannelEnabled_ret = False,
             SetChannelEnabled_ret = 0,
             CreateFloatProperty_ret = 0,
             GetStatusBits_ret = 0,
             MoveToPosition_ret = 0,
             CanHome_ret = True,
             Home_ret = 0 \<rparr>"

text \<open>A cage rotator and a lab jack as the constructor leaves them.\<close>

definition new_rot :: stage where
  "new_rot = SingleAxisStage TypeIDCageRotator 200 (DVal 1) 0"

definition new_lin :: stage where
  "new_lin = SingleAxisStage TypeIDLabJack050 200 (DVal 1) 0"

text \<open>The calls of a complete \<open>Initialize\<close> on a channel that was not enabled.\<close>

definition setup_calls :: "call list" where
  "setup_calls =
     [CConnect, CRequestPosition, CRequestStatusBits, CStartPolling 200, CSleepMs 100,
      CIsChannelEnabled, CSetChannelEnabled True, CCreateFloatProperty]"

text \<open>The two stages after a successful \<open>Initialize\<close> (see \<open>Initialize_new_rot\<close>
  and \<open>Initialize_new_lin\<close>).\<close>

definition ready_rot :: stage where
  "ready_rot =
     new_rot\<lparr> initialized := True, motorDrive := Some md_ok,
               deviceUnitsPerUm := DVal (4691249611844267 / 34359738368),
               didEnable := True, issued := setup_calls \<rparr>"

definition ready_lin :: stage where
  "ready_lin =
     new_lin\<lparr> initialized := True, motorDrive := Some md_ok,
               deviceUnitsPerUm := DVal (5404319552844595 / 4398046511104),
               didEnable := True, issued := setup_calls \<rparr>"

text \<open>
  The rotator after an \<open>Initialize\<close> whose \<open>RequestPosition\<close> was rejected, after
  \<open>Initialize\<close> and \<open>Shutdown\<close>, and after \<open>Initialize\<close> and \<open>Home\<close> at time 1000.
\<close>

definition failed_rot :: stage where
  "failed_rot =
     new_rot\<lparr> motorDrive := Some md_ok,
               deviceUnitsPerUm := DVal (4691249611844267 / 34359738368),
               issued := [CConnect, CRequestPosition] \<rparr>"

definition down_rot :: stage where
  "down_rot =
     ready_rot\<lparr> motorDrive := None,
                 issued := setup_calls @ [CSetChannelEnabled False, CStopPolling] \<rparr>"

definition homed_rot :: stage where
  "homed_rot =
     ready_rot\<lparr> homed := True, lastMovementStart := 1000,
                 issued := setup_calls @ [CCanHome, CHome] \<rparr>"

text \<open>A controller that rejects every move and every homing command with code 5.\<close>

definition hw_reject :: kinesis where
  "hw_reject = hw_ok\<lparr>MoveToPosition_ret := 5, Home_ret := 5\<rparr>"

section \<open>Facts about the arithmetic and the concrete device\<close>

lemmas fl_defs = to_double_def fl_def ulp_exp_def rne_def DBL_MAX_def compute_bitlen Let_def

lemma per_um_rot: "ddiv (DVal 49152000) (DVal 360) = DVal (4691249611844267 / 34359738368)"
  by (simp add: fl_defs)

lemma per_um_lin: "ddiv (DVal 1228800) (DVal 1000) = DVal (5404319552844595 / 4398046511104)"
  by (simp add: fl_defs)

lemma steps_rot_90: "dmul (DVal 90) (DVal (4691249611844267 / 34359738368)) = DVal 12288000"
  by (simp add: fl_defs)

lemma steps_lin_half:
  "dmul (DVal (1 / 2)) (DVal (5404319552844595 / 4398046511104)) =
     DVal (5404319552844595 / 8796093022208)"
  by (simp add: fl_defs)

lemma steps_lin_500:
  "dmul (DVal 500) (DVal (5404319552844595 / 4398046511104)) = DVal 614400"
  by (simp add: fl_defs)

lemmas ex_defs = K_ex_def md_ok_def hw_ok_def new_rot_def new_lin_def setup_calls_def
  ready_rot_def ready_lin_def SingleAxisStage_def PROPVAL_StageTypeLinear_def
  PROPVAL_StageTypeRotational_def

lemma Initialize_new_rot: "Initialize K_ex hw_ok new_rot = Inr (DEVICE_OK, ready_rot)"
  by (simp add: Initialize_def Initialize_property_def issue_def ex_defs DEVICE_OK_def per_um_rot
      del: ddiv.simps)

lemma Initialize_new_lin: "Initialize K_ex hw_ok new_lin = Inr (DEVICE_OK, ready_lin)"
  by (simp add: Initialize_def Initialize_property_def issue_def ex_defs DEVICE_OK_def per_um_lin
      del: ddiv.simps)

lemma floor_half_near: "\<bar>real_of_int \<lfloor>w + 1 / 2\<rfloor> - w\<bar> \<le> 1 / 2"
proof -
  have "real_of_int \<lfloor>w + 1 / 2\<rfloor> \<le> w + 1 / 2" "w + 1 / 2 < real_of_int \<lfloor>w + 1 / 2\<rfloor> + 1"
    by linarith+
  then show ?thesis by linarith
qed

lemma c_round_near: "\<bar>real_of_int (c_round z) - z\<bar> \<le> 1 / 2"
proof (cases "0 \<le> z")
  case True
  then show ?thesis using floor_half_near [of z] by (simp add: c_round_def)
next
  case False
  have "\<bar>- real_of_int \<lfloor>- z + 1 / 2\<rfloor> - z\<bar> = \<bar>real_of_int \<lfloor>- z + 1 / 2\<rfloor> - (- z)\<bar>"
    by linarith
  with False show ?thesis using floor_half_near [of "- z"] by (simp add: c_round_def)
qed

lemma c_round_ge: "real_of_int n \<le> z \<Longrightarrow> n \<le> c_round z"
  unfolding c_round_def by (simp; linarith)

lemma c_round_le: "z \<le> real_of_int n \<Longrightarrow> c_round z \<le> n"
  unfolding c_round_def by (simp; linarith)

lemma clamp_int_of_int:
  "clamp_int (DVal (of_int n)) =
     Some (if INT_MAX < n then INT_MAX else if n < INT_MIN then INT_MIN else n)"
  by (simp add: clamp_int_def clamp_def std_min_def std_max_def INT_MIN_def INT_MAX_def Let_def)

lemma clamp_int_special:
  "clamp_int DPosInf = Some INT_MAX" "clamp_int DNegInf = Some INT_MIN"
  "clamp_int DNaN = Some INT_MAX"
  by (simp_all add: clamp_int_def clamp_def std_min_def std_max_def INT_MIN_def INT_MAX_def Let_def)

lemma clamp_int_long_id: "INT_MIN \<le> n \<Longrightarrow> n \<le> INT_MAX \<Longrightarrow> clamp_int_long n = n"
  by (simp add: clamp_int_long_def clamp_def std_min_def std_max_def)

lemma clamp_int_long_bounds [simp]:
  "clamp_int_long INT_MAX = INT_MAX" "clamp_int_long INT_MIN = INT_MIN"
  by (simp_all add: clamp_int_long_def clamp_def std_min_def std_max_def INT_MIN_def INT_MAX_def)

lemma steps_of_product:
  "clamp_int (dround d) = Some t \<Longrightarrow>
     clamp_int_long t =
       (case d of
          DVal y \<Rightarrow> if real_of_int INT_MAX < y then INT_MAX
                    else if y < real_of_int INT_MIN then INT_MIN else c_round y
        | DPosInf \<Rightarrow> INT_MAX | DNegInf \<Rightarrow> INT_MIN | DNaN \<Rightarrow> INT_MAX)"
proof (cases d)
  case (DVal y)
  assume a: "clamp_int (dround d) = Some t"
  consider "real_of_int INT_MAX < y" | "y < real_of_int INT_MIN"
    | "real_of_int INT_MIN \<le> y" "y \<le> real_of_int INT_MAX" by linarith
  then show ?thesis
  proof cases
    case 1
    then have "INT_MAX \<le> c_round y" by (intro c_round_ge) simp
    moreover have "INT_MIN < INT_MAX" by (simp add: INT_MIN_def INT_MAX_def)
    ultimately show ?thesis using a 1 DVal
      by (auto simp: clamp_int_of_int split: if_splits)
  next
    case 2
    then have "c_round y \<le> INT_MIN" by (intro c_round_le) simp
    moreover have "INT_MIN < INT_MAX" by (simp add: INT_MIN_def INT_MAX_def)
    ultimately show ?thesis using a 2 DVal
      by (auto simp: clamp_int_of_int split: if_splits)
  next
    case 3
    then have "INT_MIN \<le> c_round y" "c_round y \<le> INT_MAX"
      by (auto intro: c_round_ge c_round_le)
    with a 3 DVal show ?thesis
      by (auto simp: clamp_int_of_int clamp_int_long_id split: if_splits)
  qed
qed (auto simp: clamp_int_special)

lemma clamp_int_dround_total: "\<exists>t. clamp_int (dround d) = Some t"
  by (cases d) (simp_all add: clamp_int_of_int clamp_int_special)

lemma Initialize_ready:
  assumes "\<not> initialized s" "Initialize K H s = Inr (rc, s1)" "initialized s1"
  shows "\<exists>md. motorDrive s1 = Some md"
    and "deviceUnitsPerUm s1 =
      (if propStageType s \<noteq> PROPVAL_StageTypeLinear
       then ddiv (propDeviceUnitsPerRevolution s) (DVal 360)
       else ddiv (propDeviceUnitsPerMillimeter s) (DVal 1000))"
  using assms
  by (auto simp: Initialize_def Initialize_property_def issue_def Let_def
      split: option.splits if_splits)

lemma Initialize_new_rot_rejected:
  "Initialize K_ex (hw_ok\<lparr>RequestPosition_ret := 7\<rparr>) new_rot = Inr (20007, failed_rot)"
  by (simp add: Initialize_def issue_def ex_defs failed_rot_def per_um_rot del: ddiv.simps)

lemma Shutdown_ready_rot: "Shutdown ready_rot = Inr (DEVICE_OK, down_rot)"
  by (simp add: Shutdown_def issue_def ex_defs down_rot_def)

lemma Home_ready_rot: "Home K_ex hw_ok 1000 ready_rot = Inr (DEVICE_OK, homed_rot)"
  by (simp add: Home_def issue_def ex_defs homed_rot_def)

lemma motorDrive_ready_rot: "motorDrive ready_rot = Some md_ok"
  by (simp add: ready_rot_def)

lemma SetPositionUm_issues:
  assumes "motorDrive s = Some md"
  shows "\<exists>rc s'. SetPositionUm K H now pos s = Inr (rc, s') \<and>
     issued s' = issued s @ [CMoveToPosition
       (case dmul pos (deviceUnitsPerUm s) of
          DVal y \<Rightarrow> if real_of_int INT_MAX < y then INT_MAX
                    else if y < real_of_int INT_MIN then INT_MIN else c_round y
        | DPosInf \<Rightarrow> INT_MAX | DNegInf \<Rightarrow> INT_MIN | DNaN \<Rightarrow> INT_MAX)]"
proof -
  obtain t where t: "clamp_int (dround (dmul pos (deviceUnitsPerUm s))) = Some t"
    using clamp_int_dround_total by blast
  from steps_of_product [OF t] t assms show ?thesis
    by (simp add: SetPositionUm_def SetPositionSteps_def issue_def Let_def)
qed

lemma SetPositionUm_ready_lin_half:
  "SetPositionUm K_ex hw_ok 1000 (DVal (1 / 2)) ready_lin =
     Inr (DEVICE_OK, ready_lin\<lparr>lastMovementStart := 1000,
                               issued := setup_calls @ [CMoveToPosition 614]\<rparr>)"
proof -
  have u: "deviceUnitsPerUm ready_lin = DVal (5404319552844595 / 4398046511104)"
    by (simp add: ready_lin_def)
  have r: "c_round (5404319552844595 / 8796093022208) = 614" by (simp add: c_round_def)
  have c: "clamp_int (DVal 614) = Some 614"
    using clamp_int_of_int [of 614] by (simp add: INT_MAX_def INT_MIN_def)
  have l: "clamp_int_long 614 = 614"
    by (rule clamp_int_long_id) (simp_all add: INT_MAX_def INT_MIN_def)
  show ?thesis
    by (simp add: SetPositionUm_def SetPositionSteps_def u steps_lin_half r c l issue_def
        ready_lin_def hw_ok_def K_ex_def del: dmul.simps)
qed

lemma and_moving_mask:
  "(x AND moving_mask K \<noteq> 0) =
     (x AND StatusBitsMovingCW K \<noteq> 0 \<or> x AND StatusBitsMovingCCW K \<noteq> 0
      \<or> x AND StatusBitsJoggingCW K \<noteq> 0 \<or> x AND StatusBitsJoggingCCW K \<noteq> 0
      \<or> x AND StatusBitsHoming K \<noteq> 0)"
  by (simp add: moving_mask_def bit.conj_disj_distrib or_eq_0_iff)

lemma SetPositionUm_rejected:
  "SetPositionUm K_ex hw_reject 1000 (DVal 90) ready_rot =
     Inr (20005, ready_rot\<lparr>issued := setup_calls @ [CMoveToPosition 12288000]\<rparr>)"
proof -
  have u: "deviceUnitsPerUm ready_rot = DVal (4691249611844267 / 34359738368)"
    by (simp add: ready_rot_def)
  have r: "c_round 12288000 = 12288000" by (simp add: c_round_def)
  have c: "clamp_int (DVal 12288000) = Some 12288000"
    using clamp_int_of_int [of 12288000] by (simp add: INT_MAX_def INT_MIN_def)
  have l: "clamp_int_long 12288000 = 12288000"
    by (rule clamp_int_long_id) (simp_all add: INT_MAX_def INT_MIN_def)
  show ?thesis
    by (simp add: SetPositionUm_def SetPositionSteps_def u steps_rot_90 r c l issue_def
        ready_rot_def hw_reject_def hw_ok_def K_ex_def del: dmul.simps)
qed

lemma Home_rejected:
  "Home K_ex hw_reject 1000 ready_rot =
     Inr (20005, ready_rot\<lparr>issued := setup_calls @ [CCanHome, CHome]\<rparr>)"
  by (simp add: Home_def issue_def ready_rot_def new_rot_def SingleAxisStage_def
      hw_reject_def hw_ok_def K_ex_def)

lemma rne_bounds: "\<lfloor>z\<rfloor> \<le> rne z" "rne z \<le> \<lceil>z\<rceil>"
proof -
  show "\<lfloor>z\<rfloor> \<le> rne z" by (simp add: rne_def Let_def)
  have "\<lfloor>z\<rfloor> + 1 = \<lceil>z\<rceil>" if "z - of_int \<lfloor>z\<rfloor> \<noteq> 0"
    using that by (simp add: ceiling_altdef)
  moreover have "\<lfloor>z\<rfloor> \<le> \<lceil>z\<rceil>" by (simp add: floor_le_ceiling)
  ultimately show "rne z \<le> \<lceil>z\<rceil>"
    by (auto simp: rne_def Let_def)
qed

lemma ulp_exp_pos:
  assumes "0 < ulp_exp x"
  shows "2 ^ nat (ulp_exp x + 52) \<le> \<bar>x\<bar>"
proof -
  from assms have big: "1 \<le> \<bar>x\<bar>" and u: "ulp_exp x + 52 = bitlen \<lfloor>\<bar>x\<bar>\<rfloor> - 1"
    using bitlen_nonneg [of "\<lceil>1 / \<bar>x\<bar>\<rceil> - 1"]
    by (auto simp: ulp_exp_def max_def split: if_splits)
  from big have m: "0 < \<lfloor>\<bar>x\<bar>\<rfloor>" by linarith
  from bitlen_bounds [OF m] have "2 ^ nat (bitlen \<lfloor>\<bar>x\<bar>\<rfloor> - 1) \<le> \<lfloor>\<bar>x\<bar>\<rfloor>" by blast
  then have "2 ^ nat (ulp_exp x + 52) \<le> \<lfloor>\<bar>x\<bar>\<rfloor>" by (simp only: u)
  then have "real_of_int (2 ^ nat (ulp_exp x + 52)) \<le> real_of_int \<lfloor>\<bar>x\<bar>\<rfloor>"
    by (rule of_int_le_iff [THEN iffD2])
  also have "\<dots> \<le> \<bar>x\<bar>" by simp
  finally show ?thesis by simp
qed

lemma fl_ge_int:
  assumes n: "0 < n" "n \<le> 2 ^ 53" and x: "real_of_int n \<le> x"
  shows "real_of_int n \<le> fl x"
proof -
  define u where "u = ulp_exp x"
  define q :: real where "q = 2 powi u"
  have q: "0 < q" by (simp add: q_def zero_less_power_int)
  from n x have xpos: "0 < x" by linarith
  then have fl: "fl x = of_int (rne (x / q)) * q" by (simp add: fl_def q_def u_def)
  have fl_ge: "of_int \<lfloor>x / q\<rfloor> * q \<le> fl x"
    unfolding fl using rne_bounds(1) [of "x / q"] q by simp
  show ?thesis
  proof (cases "u \<le> 0")
    case True
    then have qinv: "q = 1 / 2 ^ nat (- u)"
      by (auto simp: q_def power_int_def inverse_eq_divide power_one_over)
    have "real_of_int (n * 2 ^ nat (- u)) \<le> x / q"
      using x by (simp add: qinv mult_right_mono)
    then have "n * 2 ^ nat (- u) \<le> \<lfloor>x / q\<rfloor>" by (simp add: le_floor_iff)
    then have "real_of_int (n * 2 ^ nat (- u)) \<le> real_of_int \<lfloor>x / q\<rfloor>"
      by (rule of_int_le_iff [THEN iffD2])
    then have "real_of_int (n * 2 ^ nat (- u)) * q \<le> real_of_int \<lfloor>x / q\<rfloor> * q"
      using q by (simp add: mult_right_mono)
    moreover have "real_of_int (n * 2 ^ nat (- u)) * q = real_of_int n"
      by (simp add: qinv)
    ultimately show ?thesis using fl_ge by linarith
  next
    case False
    then have upos: "0 < u" by simp
    then have qp: "q = 2 ^ nat u" by (simp add: q_def power_int_def)
    from ulp_exp_pos [of x] upos xpos have "2 ^ nat (u + 52) \<le> x" by (simp add: u_def)
    moreover have "(2::real) ^ nat (u + 52) = 2 ^ 52 * q"
      using upos by (simp add: qp nat_add_distrib power_add)
    ultimately have "real_of_int (2 ^ 52) \<le> x / q" using q by (simp add: pos_le_divide_eq)
    then have "2 ^ 52 \<le> \<lfloor>x / q\<rfloor>" by (simp only: le_floor_iff)
    then have "real_of_int (2 ^ 52) \<le> real_of_int \<lfloor>x / q\<rfloor>"
      by (rule of_int_le_iff [THEN iffD2])
    then have "real_of_int (2 ^ 52) * q \<le> real_of_int \<lfloor>x / q\<rfloor> * q"
      using q by (simp add: mult_right_mono)
    moreover have "(2::real) \<le> q"
      using upos self_le_power [of "2::real" "nat u"] by (simp add: qp)
    then have "(2::real) ^ 53 \<le> real_of_int (2 ^ 52) * q" by simp
    moreover have "real_of_int n \<le> 2 ^ 53" using n(2) by (simp add: of_int_le_iff [THEN iffD2, of n "2 ^ 53", simplified])
    ultimately show ?thesis using fl_ge by linarith
  qed
qed

lemma fl_le_int:
  assumes n: "n < 0" "- (2 ^ 53) \<le> n" and x: "x \<le> real_of_int n"
  shows "fl x \<le> real_of_int n"
proof -
  define u where "u = ulp_exp x"
  define q :: real where "q = 2 powi u"
  have q: "0 < q" by (simp add: q_def zero_less_power_int)
  from n x have xneg: "x < 0" by linarith
  then have fl: "fl x = of_int (rne (x / q)) * q" by (simp add: fl_def q_def u_def)
  have fl_le: "fl x \<le> of_int \<lceil>x / q\<rceil> * q"
    unfolding fl using rne_bounds(2) [of "x / q"] q by simp
  show ?thesis
  proof (cases "u \<le> 0")
    case True
    then have qinv: "q = 1 / 2 ^ nat (- u)"
      by (auto simp: q_def power_int_def inverse_eq_divide power_one_over)
    have "x / q \<le> real_of_int (n * 2 ^ nat (- u))"
      using x by (simp add: qinv mult_right_mono)
    then have "\<lceil>x / q\<rceil> \<le> n * 2 ^ nat (- u)" by (simp add: ceiling_le_iff)
    then have "real_of_int \<lceil>x / q\<rceil> \<le> real_of_int (n * 2 ^ nat (- u))"
      by (rule of_int_le_iff [THEN iffD2])
    then have "real_of_int \<lceil>x / q\<rceil> * q \<le> real_of_int (n * 2 ^ nat (- u)) * q"
      using q by (simp add: mult_right_mono)
    moreover have "real_of_int (n * 2 ^ nat (- u)) * q = real_of_int n"
      by (simp add: qinv)
    ultimately show ?thesis using fl_le by linarith
  next
    case False
    then have upos: "0 < u" by simp
    then have qp: "q = 2 ^ nat u" by (simp add: q_def power_int_def)
    from ulp_exp_pos [of x] upos xneg have "2 ^ nat (u + 52) \<le> - x" by (simp add: u_def)
    moreover have "(2::real) ^ nat (u + 52) = 2 ^ 52 * q"
      using upos by (simp add: qp nat_add_distrib power_add)
    ultimately have "2 ^ 52 * q \<le> - x" by simp
    then have "x \<le> - (2 ^ 52) * q" by simp
    then have "x / q \<le> real_of_int (- (2 ^ 52))" using q by (simp add: pos_divide_le_eq)
    then have "\<lceil>x / q\<rceil> \<le> - (2 ^ 52)" by (simp only: ceiling_le_iff)
    then have "real_of_int \<lceil>x / q\<rceil> \<le> real_of_int (- (2 ^ 52))"
      by (rule of_int_le_iff [THEN iffD2])
    then have "real_of_int \<lceil>x / q\<rceil> * q \<le> real_of_int (- (2 ^ 52)) * q"
      by (rule mult_right_mono) (use q in simp)
    moreover have "(2::real) \<le> q"
      using upos self_le_power [of "2::real" "nat u"] by (simp add: qp)
    then have "real_of_int (- (2 ^ 52)) * q \<le> - ((2::real) ^ 53)" by simp
    moreover have "- ((2::real) ^ 53) \<le> real_of_int n"
      using n(2) by (simp add: of_int_le_iff [THEN iffD2, of "- (2 ^ 53)" n, simplified])
    ultimately show ?thesis using fl_le by linarith
  qed
qed

lemma to_double_above:
  assumes "real_of_int INT_MAX < x"
  shows "to_double x = DPosInf \<or> (\<exists>y. to_double x = DVal y \<and> real_of_int INT_MAX \<le> y)"
proof -
  have "real_of_int INT_MAX \<le> fl x"
    using assms by (intro fl_ge_int) (simp_all add: INT_MAX_def)
  moreover have "- DBL_MAX < real_of_int INT_MAX" by (simp add: DBL_MAX_def INT_MAX_def)
  ultimately show ?thesis by (auto simp: to_double_def Let_def)
qed

lemma to_double_below:
  assumes "x < real_of_int INT_MIN"
  shows "to_double x = DNegInf \<or> (\<exists>y. to_double x = DVal y \<and> y \<le> real_of_int INT_MIN)"
proof -
  have "fl x \<le> real_of_int INT_MIN"
    using assms by (intro fl_le_int) (simp_all add: INT_MIN_def)
  moreover have "real_of_int INT_MIN < DBL_MAX" by (simp add: DBL_MAX_def INT_MIN_def)
  ultimately show ?thesis by (auto simp: to_double_def Let_def)
qed

lemma saturated_above:
  assumes "real_of_int INT_MAX < p * k"
  shows "(case dmul (DVal p) (DVal k) of
          DVal y \<Rightarrow> if real_of_int INT_MAX < y then INT_MAX
                    else if y < real_of_int INT_MIN then INT_MIN else c_round y
        | DPosInf \<Rightarrow> INT_MAX | DNegInf \<Rightarrow> INT_MIN | DNaN \<Rightarrow> INT_MAX) = INT_MAX"
proof -
  have "c_round (real_of_int INT_MAX) = INT_MAX" by (simp add: c_round_def INT_MAX_def)
  moreover have "\<not> real_of_int INT_MAX < real_of_int INT_MIN"
    by (simp add: INT_MAX_def INT_MIN_def)
  ultimately show ?thesis using to_double_above [OF assms]
    by (auto simp: order.order_iff_strict)
qed

lemma saturated_below:
  assumes "p * k < real_of_int INT_MIN"
  shows "(case dmul (DVal p) (DVal k) of
          DVal y \<Rightarrow> if real_of_int INT_MAX < y then INT_MAX
                    else if y < real_of_int INT_MIN then INT_MIN else c_round y
        | DPosInf \<Rightarrow> INT_MAX | DNegInf \<Rightarrow> INT_MIN | DNaN \<Rightarrow> INT_MAX) = INT_MIN"
proof -
  have "c_round (real_of_int INT_MIN) = INT_MIN" by (simp add: c_round_def INT_MIN_def)
  moreover have "\<not> real_of_int INT_MAX < real_of_int INT_MIN"
    by (simp add: INT_MAX_def INT_MIN_def)
  ultimately show ?thesis using to_double_below [OF assms]
    by (auto simp: order.order_iff_strict)
qed

section \<open>Initialize and Shutdown\<close>

text \<open>
  C1, as stated, fails on this run: the connection is valid, so the handle is stored;
  \<open>RequestPosition\<close> then answers 7, and \<open>Initialize\<close> returns \<open>ERR_OFFSET + 7\<close> with the
  handle still held.
\<close>

theorem Initialize_late_failure_keeps_handle:
  "Initialize K_ex (hw_ok\<lparr>RequestPosition_ret := 7\<rparr>) new_rot = Inr (20007, failed_rot)
   \<and> motorDrive failed_rot = Some md_ok"
  by (simp add: Initialize_new_rot_rejected) (simp add: failed_rot_def)

text \<open>
  C1 (amended): a run of \<open>Initialize\<close> on an uninitialised stage that returns a nonzero
  code leaves the stage uninitialised. If no handle could be made it returns \<open>DEVICE_ERR\<close>,
  and if the connection is invalid it returns \<open>ERR_OFFSET\<close> plus the connection error; in
  both cases no handle is stored (the member is as it was). If a later step fails, the new
  handle stays stored, and a \<open>Shutdown\<close> of that state returns and drops it.
\<close>

theorem Initialize_failure_handle:
  assumes "\<not> initialized s" and "Initialize K H s = Inr (rc, s')" and "rc \<noteq> DEVICE_OK"
  shows "\<not> initialized s' \<and>
    (case Connect_ret H of
       None \<Rightarrow> rc = DEVICE_ERR \<and> motorDrive s' = motorDrive s
     | Some md \<Rightarrow>
         if connIsValid md
         then motorDrive s' = Some md
              \<and> (\<exists>s''. Shutdown s' = Inr (DEVICE_OK, s'') \<and> motorDrive s'' = None)
         else rc = ERR_OFFSET K + connError md \<and> motorDrive s' = motorDrive s)"
  using assms
  by (auto simp: Initialize_def Initialize_property_def Shutdown_def issue_def Let_def
      split: option.splits if_splits)

text \<open>The run above meets the hypotheses: it fails after the handle was stored.\<close>

theorem Initialize_failure_handle_witness:
  "\<not> initialized new_rot
   \<and> Initialize K_ex (hw_ok\<lparr>RequestPosition_ret := 7\<rparr>) new_rot = Inr (20007, failed_rot)
   \<and> 20007 \<noteq> DEVICE_OK
   \<and> \<not> initialized failed_rot
   \<and> motorDrive failed_rot = Some md_ok
   \<and> (\<exists>s''. Shutdown failed_rot = Inr (DEVICE_OK, s'') \<and> motorDrive s'' = None)"
proof -
  have a: "\<not> initialized new_rot" by (simp add: ex_defs)
  have b: "(20007::int) \<noteq> DEVICE_OK" by (simp add: DEVICE_OK_def)
  have c: "Connect_ret (hw_ok\<lparr>RequestPosition_ret := 7\<rparr>) = Some md_ok"
    by (simp add: hw_ok_def)
  have d: "connIsValid md_ok" by (simp add: md_ok_def)
  from Initialize_failure_handle [OF a Initialize_new_rot_rejected b] c d
  have "\<not> initialized failed_rot \<and> motorDrive failed_rot = Some md_ok
        \<and> (\<exists>s''. Shutdown failed_rot = Inr (DEVICE_OK, s'') \<and> motorDrive s'' = None)"
    by simp
  with a b Initialize_new_rot_rejected show ?thesis by simp
qed

text \<open>
  C2: \<open>Shutdown\<close> is meant to be safe in every state. On this run it is not: the channel
  was not enabled, so \<open>Initialize\<close> enabled it and set \<open>didEnable_\<close>; the first
  \<open>Shutdown\<close> drops the handle and leaves \<open>didEnable_\<close> set; the second \<open>Shutdown\<close>
  calls \<open>SetChannelEnabled\<close> through the empty handle.
\<close>

theorem Shutdown_twice_null_deref:
  "Initialize K_ex hw_ok new_rot = Inr (DEVICE_OK, ready_rot)
   \<and> Shutdown ready_rot = Inr (DEVICE_OK, down_rot)
   \<and> Shutdown down_rot = Inl NullDeref"
  by (simp add: Initialize_new_rot Shutdown_ready_rot)
     (simp add: Shutdown_def down_rot_def ready_rot_def)

text \<open>
  C3: \<open>Shutdown\<close> is meant to return the stage to the uninitialised state. On this run
  the stage is still marked initialised after \<open>Shutdown\<close> although its handle is gone,
  so the next \<open>Initialize\<close> returns \<open>DEVICE_OK\<close> at once, issues nothing and stores no
  handle, and a following \<open>Home\<close> goes through the empty handle.
\<close>

theorem Shutdown_keeps_initialized:
  "Initialize K_ex hw_ok new_rot = Inr (DEVICE_OK, ready_rot)
   \<and> Shutdown ready_rot = Inr (DEVICE_OK, down_rot)
   \<and> initialized down_rot
   \<and> motorDrive down_rot = None
   \<and> Initialize K_ex hw_ok down_rot = Inr (DEVICE_OK, down_rot)
   \<and> Home K_ex hw_ok 0 down_rot = Inl NullDeref"
  by (simp add: Initialize_new_rot Shutdown_ready_rot)
     (simp add: Initialize_def Home_def down_rot_def ready_rot_def)

text \<open>
  C7: \<open>Initialize\<close> on a stage that is already initialised returns \<open>DEVICE_OK\<close> and
  leaves the whole state, the list of issued calls included, as it was: no connect, no
  request, no polling and no enable happens a second time.
\<close>

theorem Initialize_idempotent:
  "initialized s \<Longrightarrow> Initialize K H s = Inr (DEVICE_OK, s)"
  by (simp add: Initialize_def)

text \<open>The rotator after its first \<open>Initialize\<close> is such a stage.\<close>

theorem Initialize_idempotent_witness:
  "initialized ready_rot \<and> Initialize K_ex hw_ok ready_rot = Inr (DEVICE_OK, ready_rot)"
proof -
  have a: "initialized ready_rot" by (simp add: ready_rot_def)
  from a Initialize_idempotent [OF a] show ?thesis by simp
qed

section \<open>Physical positions to step targets\<close>

text \<open>
  C9: with a handle held, \<open>SetPositionUm\<close> always returns and issues exactly one
  \<open>MoveToPosition\<close>. Its target is the scaled position, that is the \<open>double\<close> product of
  the argument and \<open>deviceUnitsPerUm_\<close>, rounded to the nearest integer and saturated to
  the \<open>int\<close> range: \<open>INT_MAX\<close> when the product is above \<open>INT_MAX\<close> (or infinite, or not a
  number), \<open>INT_MIN\<close> when it is below \<open>INT_MIN\<close>, and \<open>std::round\<close> of the product
  otherwise, which is within one half of it. The rounding of the product to a \<open>double\<close>
  does not undo this: the target is also \<open>INT_MAX\<close> when the exact product of the two
  numbers is above \<open>INT_MAX\<close>, and \<open>INT_MIN\<close> when it is below \<open>INT_MIN\<close>.
\<close>

theorem SetPositionUm_rounds_and_saturates:
  assumes "motorDrive s = Some md"
  shows "\<exists>rc s' t. SetPositionUm K H now pos s = Inr (rc, s')
     \<and> issued s' = issued s @ [CMoveToPosition t]
     \<and> t = (case dmul pos (deviceUnitsPerUm s) of
              DVal y \<Rightarrow> if real_of_int INT_MAX < y then INT_MAX
                        else if y < real_of_int INT_MIN then INT_MIN else c_round y
            | DPosInf \<Rightarrow> INT_MAX | DNegInf \<Rightarrow> INT_MIN | DNaN \<Rightarrow> INT_MAX)
     \<and> (\<forall>p k. pos = DVal p \<and> deviceUnitsPerUm s = DVal k \<longrightarrow>
            (real_of_int INT_MAX < p * k \<longrightarrow> t = INT_MAX)
            \<and> (p * k < real_of_int INT_MIN \<longrightarrow> t = INT_MIN))
     \<and> \<bar>real_of_int (c_round z) - z\<bar> \<le> 1 / 2"
proof -
  from SetPositionUm_issues [OF assms, of K H now pos] obtain rc s' where
    r: "SetPositionUm K H now pos s = Inr (rc, s')"
       "issued s' = issued s @ [CMoveToPosition
       (case dmul pos (deviceUnitsPerUm s) of
          DVal y \<Rightarrow> if real_of_int INT_MAX < y then INT_MAX
                    else if y < real_of_int INT_MIN then INT_MIN else c_round y
        | DPosInf \<Rightarrow> INT_MAX | DNegInf \<Rightarrow> INT_MIN | DNaN \<Rightarrow> INT_MAX)]"
    by blast
  show ?thesis
    apply (rule exI [of _ rc], rule exI [of _ s'], rule exI)
    apply (intro conjI)
        apply (rule r(1))
       apply (rule r(2))
      apply (rule refl)
     apply (intro allI impI conjI)
      apply (elim conjE, hypsubst, simp only: saturated_above)
     apply (elim conjE, hypsubst, simp only: saturated_below)
    apply (rule c_round_near)
    done
qed

text \<open>On the initialised rotator a position of \<open>10\<^sup>9\<close> degrees saturates at \<open>INT_MAX\<close>.\<close>

theorem SetPositionUm_rounds_and_saturates_witness:
  "motorDrive ready_rot = Some md_ok
   \<and> deviceUnitsPerUm ready_rot = DVal (4691249611844267 / 34359738368)
   \<and> real_of_int INT_MAX < 1000000000 * (4691249611844267 / 34359738368)
   \<and> (\<exists>rc s'. SetPositionUm K_ex hw_ok 1000 (DVal 1000000000) ready_rot = Inr (rc, s')
        \<and> issued s' = issued ready_rot @ [CMoveToPosition INT_MAX])"
proof -
  have u: "deviceUnitsPerUm ready_rot = DVal (4691249611844267 / 34359738368)"
    by (simp add: ready_rot_def)
  have b: "real_of_int INT_MAX < 1000000000 * (4691249611844267 / 34359738368)"
    by (simp add: INT_MAX_def)
  from SetPositionUm_rounds_and_saturates
         [OF motorDrive_ready_rot, of K_ex hw_ok 1000 "DVal 1000000000"]
  obtain rc s' t where
    r: "SetPositionUm K_ex hw_ok 1000 (DVal 1000000000) ready_rot = Inr (rc, s')"
       "issued s' = issued ready_rot @ [CMoveToPosition t]"
    and sat: "\<forall>p k. DVal 1000000000 = DVal p \<and> deviceUnitsPerUm ready_rot = DVal k \<longrightarrow>
            (real_of_int INT_MAX < p * k \<longrightarrow> t = INT_MAX)
            \<and> (p * k < real_of_int INT_MIN \<longrightarrow> t = INT_MIN)"
    by blast
  from sat u b have "t = INT_MAX" by blast
  with r motorDrive_ready_rot u b show ?thesis by blast
qed

text \<open>
  C8: a stage whose type property is Rotational and whose device units per revolution
  are 49152000, once initialised, answers \<open>SetPositionUm(90.0)\<close> with a
  \<open>MoveToPosition\<close> to step 12288000.
\<close>

theorem SetPositionUm_rotational_90:
  assumes "\<not> initialized s"
    and "propStageType s = PROPVAL_StageTypeRotational"
    and "propDeviceUnitsPerRevolution s = DVal 49152000"
    and "Initialize K H s = Inr (rc, s1)"
    and "initialized s1"
  shows "\<exists>rc' s2. SetPositionUm K H' now (DVal 90) s1 = Inr (rc', s2)
           \<and> issued s2 = issued s1 @ [CMoveToPosition 12288000]"
proof -
  obtain md where md: "motorDrive s1 = Some md"
    using Initialize_ready(1) [OF assms(1,4,5)] by blast
  have "deviceUnitsPerUm s1 = ddiv (DVal 49152000) (DVal 360)"
    using Initialize_ready(2) [OF assms(1,4,5)] assms(2,3)
    by (simp add: PROPVAL_StageTypeLinear_def PROPVAL_StageTypeRotational_def)
  then have u: "deviceUnitsPerUm s1 = DVal (4691249611844267 / 34359738368)"
    by (simp only: per_um_rot)
  have "c_round 12288000 = 12288000" by (simp add: c_round_def)
  with SetPositionUm_issues [OF md, of K H' now "DVal 90"] show ?thesis
    by (simp add: u steps_rot_90 INT_MAX_def INT_MIN_def del: dmul.simps)
qed

text \<open>The cage rotator, as constructed, is such a stage.\<close>

theorem SetPositionUm_rotational_90_witness:
  "\<not> initialized new_rot
   \<and> propStageType new_rot = PROPVAL_StageTypeRotational
   \<and> propDeviceUnitsPerRevolution new_rot = DVal 49152000
   \<and> Initialize K_ex hw_ok new_rot = Inr (DEVICE_OK, ready_rot)
   \<and> initialized ready_rot
   \<and> (\<exists>rc' s2. SetPositionUm K_ex hw_ok 1000 (DVal 90) ready_rot = Inr (rc', s2)
           \<and> issued s2 = issued ready_rot @ [CMoveToPosition 12288000])"
proof -
  have a: "\<not> initialized new_rot"
    and b: "propStageType new_rot = PROPVAL_StageTypeRotational"
    and c: "propDeviceUnitsPerRevolution new_rot = DVal 49152000"
    by (simp_all add: new_rot_def SingleAxisStage_def)
  have d: "initialized ready_rot" by (simp add: ready_rot_def)
  from SetPositionUm_rotational_90 [OF a b c Initialize_new_rot d, where H' = hw_ok and now = 1000]
    a b c d Initialize_new_rot
  show ?thesis by simp
qed

text \<open>
  C4, as stated, fails on the lab jack (Linear, 1228800 device units per millimetre):
  after \<open>Initialize\<close>, \<open>SetPositionUm(0.5)\<close> moves to step 614, not 614400.
\<close>

theorem SetPositionUm_linear_half_is_614:
  "Initialize K_ex hw_ok new_lin = Inr (DEVICE_OK, ready_lin)
   \<and> SetPositionUm K_ex hw_ok 1000 (DVal (1 / 2)) ready_lin =
       Inr (DEVICE_OK, ready_lin\<lparr>lastMovementStart := 1000,
                                 issued := setup_calls @ [CMoveToPosition 614]\<rparr>)"
  by (simp add: Initialize_new_lin SetPositionUm_ready_lin_half)

text \<open>
  C4 (amended): a stage whose type property is Linear and whose device units per
  millimetre are 1228800, once initialised, answers \<open>SetPositionUm(0.5)\<close> with a
  \<open>MoveToPosition\<close> to step 614, since the argument is in micrometres and the factor is
  1228800 / 1000 device units per micrometre; step 614400 is the target of
  \<open>SetPositionUm(500.0)\<close>.
\<close>

theorem SetPositionUm_linear_1228800:
  assumes "\<not> initialized s"
    and "propStageType s = PROPVAL_StageTypeLinear"
    and "propDeviceUnitsPerMillimeter s = DVal 1228800"
    and "Initialize K H s = Inr (rc, s1)"
    and "initialized s1"
  shows "(\<exists>rc' s2. SetPositionUm K H' now (DVal (1 / 2)) s1 = Inr (rc', s2)
            \<and> issued s2 = issued s1 @ [CMoveToPosition 614])
       \<and> (\<exists>rc' s2. SetPositionUm K H' now (DVal 500) s1 = Inr (rc', s2)
            \<and> issued s2 = issued s1 @ [CMoveToPosition 614400])"
proof -
  obtain md where md: "motorDrive s1 = Some md"
    using Initialize_ready(1) [OF assms(1,4,5)] by blast
  have "deviceUnitsPerUm s1 = ddiv (DVal 1228800) (DVal 1000)"
    using Initialize_ready(2) [OF assms(1,4,5)] assms(2,3) by simp
  then have u: "deviceUnitsPerUm s1 = DVal (5404319552844595 / 4398046511104)"
    by (simp only: per_um_lin)
  have r: "c_round (5404319552844595 / 8796093022208) = 614" "c_round 614400 = 614400"
    by (simp_all add: c_round_def)
  from SetPositionUm_issues [OF md, of K H' now "DVal (1 / 2)"]
  have one: "\<exists>rc' s2. SetPositionUm K H' now (DVal (1 / 2)) s1 = Inr (rc', s2)
            \<and> issued s2 = issued s1 @ [CMoveToPosition 614]"
    by (simp add: u steps_lin_half r INT_MAX_def INT_MIN_def del: dmul.simps)
  from SetPositionUm_issues [OF md, of K H' now "DVal 500"]
  have two: "\<exists>rc' s2. SetPositionUm K H' now (DVal 500) s1 = Inr (rc', s2)
            \<and> issued s2 = issued s1 @ [CMoveToPosition 614400]"
    by (simp add: u steps_lin_500 r INT_MAX_def INT_MIN_def del: dmul.simps)
  from one two show ?thesis by blast
qed

text \<open>The lab jack, as constructed, is such a stage.\<close>

theorem SetPositionUm_linear_1228800_witness:
  "\<not> initialized new_lin
   \<and> propStageType new_lin = PROPVAL_StageTypeLinear
   \<and> propDeviceUnitsPerMillimeter new_lin = DVal 1228800
   \<and> Initialize K_ex hw_ok new_lin = Inr (DEVICE_OK, ready_lin)
   \<and> initialized ready_lin
   \<and> (\<exists>rc' s2. SetPositionUm K_ex hw_ok 1000 (DVal (1 / 2)) ready_lin = Inr (rc', s2)
            \<and> issued s2 = issued ready_lin @ [CMoveToPosition 614])
   \<and> (\<exists>rc' s2. SetPositionUm K_ex hw_ok 1000 (DVal 500) ready_lin = Inr (rc', s2)
            \<and> issued s2 = issued ready_lin @ [CMoveToPosition 614400])"
proof -
  have a: "\<not> initialized new_lin"
    and b: "propStageType new_lin = PROPVAL_StageTypeLinear"
    and c: "propDeviceUnitsPerMillimeter new_lin = DVal 1228800"
    by (simp_all add: new_lin_def SingleAxisStage_def)
  have d: "initialized ready_lin" by (simp add: ready_lin_def)
  from SetPositionUm_linear_1228800 [OF a b c Initialize_new_lin d, where H' = hw_ok and now = 1000]
    a b c d Initialize_new_lin
  show ?thesis by simp
qed

section \<open>Busy\<close>

text \<open>
  C5: \<open>Busy\<close> has two phases. While the time since the last recorded start of a
  movement is at most the polling interval plus 10 ms it returns true, whatever the status
  bits are (and whether or not a handle is held). Later, with a handle held, it returns
  true exactly when the status word read from the handle has one of the bits moving
  clockwise, moving counterclockwise, jogging clockwise, jogging counterclockwise or
  homing set.
\<close>

theorem Busy_two_phase:
  "(now - lastMovementStart s \<le> real_of_int (pollingIntervalMs s) + 10
      \<longrightarrow> Busy K H now s = Inr True)
   \<and> (real_of_int (pollingIntervalMs s) + 10 < now - lastMovementStart s
        \<and> motorDrive s = Some md
      \<longrightarrow> Busy K H now s =
            Inr (GetStatusBits_ret H AND StatusBitsMovingCW K \<noteq> 0
                 \<or> GetStatusBits_ret H AND StatusBitsMovingCCW K \<noteq> 0
                 \<or> GetStatusBits_ret H AND StatusBitsJoggingCW K \<noteq> 0
                 \<or> GetStatusBits_ret H AND StatusBitsJoggingCCW K \<noteq> 0
                 \<or> GetStatusBits_ret H AND StatusBitsHoming K \<noteq> 0))"
  by (simp add: Busy_def Let_def and_moving_mask)

text \<open>
  On the initialised rotator (last start at 0, polling every 200 ms): inside the window
  at 210 ms; after it at 211 ms, busy with the moving-counterclockwise bit set and idle
  with only an unrelated bit set.
\<close>

theorem Busy_two_phase_witness:
  "210 - lastMovementStart ready_rot \<le> real_of_int (pollingIntervalMs ready_rot) + 10
   \<and> Busy K_ex hw_ok 210 ready_rot = Inr True
   \<and> real_of_int (pollingIntervalMs ready_rot) + 10 < 211 - lastMovementStart ready_rot
   \<and> motorDrive ready_rot = Some md_ok
   \<and> Busy K_ex (hw_ok\<lparr>GetStatusBits_ret := 0x20\<rparr>) 211 ready_rot = Inr True
   \<and> Busy K_ex (hw_ok\<lparr>GetStatusBits_ret := 0x400\<rparr>) 211 ready_rot = Inr False"
proof -
  have a: "210 - lastMovementStart ready_rot \<le> real_of_int (pollingIntervalMs ready_rot) + 10"
    and b: "real_of_int (pollingIntervalMs ready_rot) + 10 < 211 - lastMovementStart ready_rot"
    by (simp_all add: ready_rot_def new_rot_def SingleAxisStage_def)
  note m = motorDrive_ready_rot
  from Busy_two_phase [of 210 ready_rot K_ex hw_ok md_ok] a
  have 1: "Busy K_ex hw_ok 210 ready_rot = Inr True" by blast
  from Busy_two_phase [of 211 ready_rot K_ex "hw_ok\<lparr>GetStatusBits_ret := 0x20\<rparr>" md_ok] b m
  have 2: "Busy K_ex (hw_ok\<lparr>GetStatusBits_ret := 0x20\<rparr>) 211 ready_rot = Inr True"
    by (simp add: K_ex_def hw_ok_def)
  from Busy_two_phase [of 211 ready_rot K_ex "hw_ok\<lparr>GetStatusBits_ret := 0x400\<rparr>" md_ok] b m
  have 3: "Busy K_ex (hw_ok\<lparr>GetStatusBits_ret := 0x400\<rparr>) 211 ready_rot = Inr False"
    by (simp add: K_ex_def hw_ok_def)
  from a b m 1 2 3 show ?thesis by simp
qed

section \<open>Homing and rejected commands\<close>

text \<open>
  C6, as stated, fails on this run: the rotator is homed by a first \<open>Home\<close>; during a
  second \<open>Home\<close> the controller answers \<open>CanHome\<close> with false, and the call returns
  \<open>DEVICE_UNSUPPORTED_COMMAND\<close> although the stage is already homed.
\<close>

theorem Home_homed_but_unsupported:
  "Home K_ex hw_ok 1000 ready_rot = Inr (DEVICE_OK, homed_rot)
   \<and> homed homed_rot
   \<and> Home K_ex (hw_ok\<lparr>CanHome_ret := False\<rparr>) 2000 homed_rot =
       Inr (DEVICE_UNSUPPORTED_COMMAND,
            homed_rot\<lparr>issued := setup_calls @ [CCanHome, CHome, CCanHome]\<rparr>)
   \<and> DEVICE_UNSUPPORTED_COMMAND \<noteq> DEVICE_OK"
  by (simp add: Home_ready_rot)
     (simp add: Home_def issue_def homed_rot_def ready_rot_def hw_ok_def
        DEVICE_UNSUPPORTED_COMMAND_def DEVICE_OK_def)

text \<open>
  C6 (amended): with a handle held, \<open>Home\<close> first asks \<open>CanHome\<close> and fails with
  \<open>DEVICE_UNSUPPORTED_COMMAND\<close> when the answer is false, also on a stage that is already
  homed. Otherwise it returns \<open>DEVICE_OK\<close> without a homing command when the stage is
  already homed. Otherwise it issues \<open>Home\<close>; exactly when the hardware accepts it the
  stage becomes homed and the start of the movement is recorded, and a rejected command
  returns \<open>ERR_OFFSET\<close> plus its code.
\<close>

theorem Home_behaviour:
  assumes "motorDrive s = Some md"
  shows "\<exists>rc s'. Home K H now s = Inr (rc, s')
     \<and> rc = (if \<not> CanHome_ret H then DEVICE_UNSUPPORTED_COMMAND
             else if homed s then DEVICE_OK
             else if Home_ret H = 0 then DEVICE_OK
             else ERR_OFFSET K + sint (Home_ret H))
     \<and> issued s' = issued s @ (if CanHome_ret H \<and> \<not> homed s then [CCanHome, CHome]
                                else [CCanHome])
     \<and> homed s' = (homed s \<or> CanHome_ret H \<and> Home_ret H = 0)
     \<and> lastMovementStart s' =
         (if CanHome_ret H \<and> \<not> homed s \<and> Home_ret H = 0 then now
          else lastMovementStart s)"
  using assms by (simp add: Home_def issue_def Let_def)

text \<open>The first \<open>Home\<close> of the initialised rotator, at time 1000.\<close>

theorem Home_behaviour_witness:
  "motorDrive ready_rot = Some md_ok
   \<and> (\<exists>rc s'. Home K_ex hw_ok 1000 ready_rot = Inr (rc, s')
        \<and> rc = DEVICE_OK
        \<and> issued s' = issued ready_rot @ [CCanHome, CHome]
        \<and> homed s'
        \<and> lastMovementStart s' = 1000)"
proof -
  have h: "\<not> homed ready_rot" "CanHome_ret hw_ok" "Home_ret hw_ok = 0"
    by (simp_all add: ready_rot_def new_rot_def SingleAxisStage_def hw_ok_def)
  from Home_behaviour [OF motorDrive_ready_rot, of K_ex hw_ok 1000] h motorDrive_ready_rot
  show ?thesis by simp
qed

text \<open>
  C10: when the hardware rejects the command (a nonzero code from \<open>MoveToPosition\<close> or
  from \<open>Home\<close>), a returning \<open>SetPositionUm\<close> respectively \<open>Home\<close> leaves the time
  of the last movement start and the homed flag as they were.
\<close>

theorem rejected_command_changes_nothing:
  "(MoveToPosition_ret H \<noteq> 0 \<and> SetPositionUm K H now pos s = Inr (rc, s')
      \<longrightarrow> lastMovementStart s' = lastMovementStart s \<and> homed s' = homed s)
   \<and> (Home_ret H \<noteq> 0 \<and> Home K H now s = Inr (rc, s')
      \<longrightarrow> lastMovementStart s' = lastMovementStart s \<and> homed s' = homed s)"
  by (auto simp: SetPositionUm_def SetPositionSteps_def Home_def issue_def Let_def
      split: option.splits if_splits)

text \<open>Both commands rejected with code 5 on the initialised rotator.\<close>

theorem rejected_command_changes_nothing_witness:
  "MoveToPosition_ret hw_reject \<noteq> 0
   \<and> SetPositionUm K_ex hw_reject 1000 (DVal 90) ready_rot =
       Inr (20005, ready_rot\<lparr>issued := setup_calls @ [CMoveToPosition 12288000]\<rparr>)
   \<and> Home_ret hw_reject \<noteq> 0
   \<and> Home K_ex hw_reject 1000 ready_rot =
       Inr (20005, ready_rot\<lparr>issued := setup_calls @ [CCanHome, CHome]\<rparr>)
   \<and> lastMovementStart (ready_rot\<lparr>issued := setup_calls @ [CMoveToPosition 12288000]\<rparr>)
       = lastMovementStart ready_rot
   \<and> homed (ready_rot\<lparr>issued := setup_calls @ [CCanHome, CHome]\<rparr>) = homed ready_rot"
proof -
  have a: "MoveToPosition_ret hw_reject \<noteq> 0" and b: "Home_ret hw_reject \<noteq> 0"
    by (simp_all add: hw_reject_def hw_ok_def)
  from rejected_command_changes_nothing
         [of hw_reject K_ex 1000 "DVal 90" ready_rot 20005
             "ready_rot\<lparr>issued := setup_calls @ [CMoveToPosition 12288000]\<rparr>"]
       a SetPositionUm_rejected
  have 1: "lastMovementStart (ready_rot\<lparr>issued := setup_calls @ [CMoveToPosition 12288000]\<rparr>)
       = lastMovementStart ready_rot" by blast
  from rejected_command_changes_nothing
         [of hw_reject K_ex 1000 "DVal 90" ready_rot 20005
             "ready_rot\<lparr>issued := setup_calls @ [CCanHome, CHome]\<rparr>"]
       b Home_rejected
  have 2: "homed (ready_rot\<lparr>issued := setup_calls @ [CCanHome, CHome]\<rparr>) = homed ready_rot"
    by blast
  from a b SetPositionUm_rejected Home_rejected 1 2 show ?thesis by simp
qed

end
